theory Spec2Isabelle
  imports Complex_Main "HOL-Library.Word" "HOL-Library.Multiset" "HOL-Library.Log_Nat"
begin

section \<open>Data model\<close>

text \<open>
  The program works on OpenCV value types. \<open>cv::Point2f\<close> is a pair of binary32 floats,
  \<open>cv::Vec4i\<close> four ints (a segment \<open>x1, y1, x2, y2\<close>), \<open>cv::Size\<close> a width and a height,
  \<open>cv::Rect\<close> an origin with a width and a height, all ints.

  A float is modelled as the real number it stands for. comparePoints, whose result turns on
  the last bit of a sum, rounds that sum to binary32 (\<open>fl32\<close> below). The intersection and
  distance computations are on the reals, without rounding; the concrete inputs evaluated for
  them use small integers, halves and quarters, which binary32 represents exactly and on which
  the program's sums, differences and products are exact. An \<open>int\<close> is modelled as a
  mathematical integer, with the 32-bit range written out where a value is converted or
  subtracted (\<open>cvRound\<close>, \<open>int32\<close>).
\<close>

datatype point2f = Point2f (pt_x: real) (pt_y: real)

datatype vec4i = Vec4i int int int int

datatype size2i = Size (size_width: int) (size_height: int)

datatype rect = Rect (rect_x: int) (rect_y: int) (rect_width: int) (rect_height: int)

text \<open>
  A \<open>cv::Mat\<close>: its number of rows and columns and the element at each row and column. A
  colour image has elements of three bytes; the element type is left open where only the
  dimensions matter.
\<close>

datatype 'a mat = Mat (mat_rows: int) (mat_cols: int) (mat_px: "int \<Rightarrow> int \<Rightarrow> 'a")

text \<open>
  What a call can do besides returning. \<open>UndefinedRead i\<close> marks an \<open>operator[]\<close> on a
  \<open>std::vector\<close> or a C array at index \<open>i\<close> outside its bounds: C++ gives that read no
  meaning, so it is not an error the caller receives, it is the point where the run leaves
  defined behaviour. \<open>StdOutOfRange\<close> is the \<open>std::out_of_range\<close> thrown by
  \<open>unordered_map::at\<close>, \<open>CvRoiOutside\<close> the \<open>cv::Exception\<close> thrown by
  \<open>cv::Mat::operator()(Rect)\<close> for a region that is not inside the matrix, and
  \<open>StdinExhausted\<close> the prompt loop of \<open>getFenFromLabels\<close> spinning on an input
  stream that holds no further token.
\<close>

datatype failure = UndefinedRead int | StdOutOfRange | CvRoiOutside | StdinExhausted

text \<open>\<open>v[i]\<close> on a \<open>std::vector\<close>, for an index that is not negative.\<close>

definition vec_at :: "'a list \<Rightarrow> nat \<Rightarrow> failure + 'a" where
  "vec_at v i = (if i < length v then Inr (v ! i) else Inl (UndefinedRead (int i)))"

section \<open>processingOps.cpp\<close>

subsection \<open>Rounding to binary32\<close>

text \<open>
  \<open>rint\<close> is the nearest integer, a tie going to the even one, as the default rounding mode
  has it. A binary32 number has a significand of 24 bits and an exponent from -126 to 127.
  \<open>binade\<close> is the exponent \<open>e\<close> with \<open>2^e \<le> a < 2^(e+1)\<close>, read off the number of bits
  of the integer part of \<open>a\<close>, or of \<open>1 / a\<close> when \<open>a\<close> is below 1; below \<open>2^-126\<close> the
  numbers are subnormal and keep the exponent -126. \<open>fl32\<close> rounds to the nearest multiple
  of \<open>2^(e-23)\<close>, the spacing of the binary32 numbers there. Overflow to infinity and NaN are
  not modelled.
\<close>

definition rint :: "real \<Rightarrow> int" where
  "rint v =
     (let f = \<lfloor>v\<rfloor>; d = v - of_int f in
      if d < 1/2 then f else if 1/2 < d then f + 1 else if even f then f else f + 1)"

definition pow2 :: "int \<Rightarrow> real" where
  "pow2 e = (if 0 \<le> e then 2 ^ nat e else 1 / 2 ^ nat (- e))"

definition binade :: "real \<Rightarrow> int" where
  "binade a =
     (if 1 \<le> a then min 127 (bitlen \<lfloor>a\<rfloor> - 1)
      else if a \<le> 0 then - 126
      else max (- 126) (- bitlen (\<lceil>1 / a\<rceil> - 1)))"

definition round_to :: "real \<Rightarrow> real \<Rightarrow> real" where
  "round_to ulp v = of_int (rint (v / ulp)) * ulp"

definition fl32 :: "real \<Rightarrow> real" where
  "fl32 v = round_to (pow2 (binade \<bar>v\<bar> - 23)) v"

subsection \<open>comparePoints\<close>

text \<open>
  \<open>ySlack\<close> and both coordinates are floats, so each sum \<open>p.y + ySlack\<close> is a float
  addition: the exact sum rounded to binary32. The comparisons are exact.
\<close>

definition comparePoints :: "point2f \<Rightarrow> point2f \<Rightarrow> bool" where
  "comparePoints p1 p2 =
     (let ySlack = 8 in
      if fl32 (pt_y p1 + ySlack) < pt_y p2 then True
      else (fl32 (pt_y p1 + ySlack) > pt_y p2 \<and> pt_y p1 < fl32 (pt_y p2 + ySlack)
              \<and> pt_x p1 < pt_x p2))"

subsection \<open>cv::Rect from two corner points\<close>

text \<open>
  \<open>cv::Rect\<close> is \<open>cv::Rect_<int>\<close>, four 32-bit ints. Its two-corner constructor takes
  \<open>cv::Point_<int>\<close>, so \<open>cv::Rect(topLeft, bottomRight)\<close> on two \<open>cv::Point2f\<close> first
  converts each point with \<open>saturate_cast<int>\<close>, which is \<open>cvRound\<close>: the nearest integer,
  a tie going to the even one. For a value whose nearest integer is outside the \<open>int\<close> range
  OpenCV leaves the result to the machine's conversion; the model clamps it to the range, as
  the conversion of ARM does (that of x86 returns the least \<open>int\<close>). The constructor then
  stores the smaller x and y as the origin and the differences as width and height. A
  difference above the greatest \<open>int\<close> overflows; \<open>int32\<close> wraps it around as the
  machine's subtraction does. The theorems on regions below bound the coordinates, so that
  neither case occurs in them.
\<close>

definition cvRound :: "real \<Rightarrow> int" where
  "cvRound v =
     (let r = rint v in
      if r < - (2 ^ 31) then - (2 ^ 31) else if 2 ^ 31 - 1 < r then 2 ^ 31 - 1 else r)"

definition int32 :: "int \<Rightarrow> int" where
  "int32 i = (i + 2 ^ 31) mod 2 ^ 32 - 2 ^ 31"

datatype point2i = Point2i (pti_x: int) (pti_y: int)

definition to_point2i :: "point2f \<Rightarrow> point2i" where
  "to_point2i p = Point2i (cvRound (pt_x p)) (cvRound (pt_y p))"

definition Rect_pts :: "point2i \<Rightarrow> point2i \<Rightarrow> rect" where
  "Rect_pts pt1 pt2 =
     (let x = min (pti_x pt1) (pti_x pt2);
          y = min (pti_y pt1) (pti_y pt2);
          width = int32 (max (pti_x pt1) (pti_x pt2) - x);
          height = int32 (max (pti_y pt1) (pti_y pt2) - y)
      in Rect x y width height)"

definition cvRect :: "point2f \<Rightarrow> point2f \<Rightarrow> rect" where
  "cvRect p q = Rect_pts (to_point2i p) (to_point2i q)"

subsection \<open>setRectangles\<close>

text \<open>
  The two loops of setRectangles, rows outside and columns inside. \<open>rectangles\<close> is the
  output vector the caller passes by reference; the drawing on \<open>dst\<close> under
  \<open>showRectangles\<close> and the \<open>printf\<close> do not change it and are left out. The function
  checks no size: each \<open>intersections[...]\<close> is a plain \<open>operator[]\<close>.
\<close>

fun setRectangles_cols :: "point2f list \<Rightarrow> nat \<Rightarrow> nat list \<Rightarrow> rect list \<Rightarrow> failure + rect list" where
  "setRectangles_cols intersections row [] rectangles = Inr rectangles"
| "setRectangles_cols intersections row (col # cols) rectangles =
     (case vec_at intersections (row * 9 + col) of
        Inl e \<Rightarrow> Inl e
      | Inr topLeft \<Rightarrow>
          (case vec_at intersections ((row + 1) * 9 + (col + 1)) of
             Inl e \<Rightarrow> Inl e
           | Inr bottomRight \<Rightarrow>
               setRectangles_cols intersections row cols (rectangles @ [cvRect topLeft bottomRight])))"

fun setRectangles_rows :: "point2f list \<Rightarrow> nat list \<Rightarrow> rect list \<Rightarrow> failure + rect list" where
  "setRectangles_rows intersections [] rectangles = Inr rectangles"
| "setRectangles_rows intersections (row # rows) rectangles =
     (case setRectangles_cols intersections row [0..<8] rectangles of
        Inl e \<Rightarrow> Inl e
      | Inr rectangles' \<Rightarrow> setRectangles_rows intersections rows rectangles')"

definition setRectangles :: "point2f list \<Rightarrow> rect list \<Rightarrow> failure + rect list" where
  "setRectangles intersections rectangles = setRectangles_rows intersections [0..<8] rectangles"

text \<open>The region of one cell, as the loop body builds it (for indices inside the vector).\<close>

definition region :: "point2f list \<Rightarrow> nat \<Rightarrow> nat \<Rightarrow> rect" where
  "region pts row col = cvRect (pts ! (row * 9 + col)) (pts ! ((row + 1) * 9 + (col + 1)))"

text \<open>Reading one region out of a result, and a regular 9 x 9 lattice with spacing 100 whose
  coordinates are not integers, as test input.\<close>

definition region_at :: "failure + rect list \<Rightarrow> nat \<Rightarrow> rect option" where
  "region_at res i =
     (case res of Inl e \<Rightarrow> None | Inr rs \<Rightarrow> if i < length rs then Some (rs ! i) else None)"

definition lattice81 :: "point2f list" where
  "lattice81 =
     concat (map (\<lambda>row. map (\<lambda>col. Point2f (100 * real col + 3/4) (100 * real row + 3/4)) [0..<9])
       [0..<9])"

subsection \<open>checkIntersection and arePointsNearby\<close>

text \<open>Point arithmetic of \<open>cv::Point2f\<close> and the header's \<open>distMacro\<close>.\<close>

definition pt_sub :: "point2f \<Rightarrow> point2f \<Rightarrow> point2f" where
  "pt_sub a b = Point2f (pt_x a - pt_x b) (pt_y a - pt_y b)"

definition pt_add :: "point2f \<Rightarrow> point2f \<Rightarrow> point2f" where
  "pt_add a b = Point2f (pt_x a + pt_x b) (pt_y a + pt_y b)"

definition pt_scale :: "point2f \<Rightarrow> real \<Rightarrow> point2f" where
  "pt_scale a t = Point2f (pt_x a * t) (pt_y a * t)"

definition distMacro :: "point2f \<Rightarrow> point2f \<Rightarrow> real" where
  "distMacro a b =
     sqrt (((pt_x a - pt_x b) * (pt_x a - pt_x b)) + ((pt_y a - pt_y b) * (pt_y a - pt_y b)))"

text \<open>
  checkIntersection writes the result point through the reference \<open>r\<close> and returns whether
  it lies inside the image; for (near-)parallel lines it returns false and leaves \<open>r\<close> as it
  was. The model returns the flag together with the final value of \<open>r\<close>. The
  \<open>printf\<close> on negative endpoints is left out.
\<close>

fun checkIntersection :: "vec4i \<Rightarrow> vec4i \<Rightarrow> size2i \<Rightarrow> point2f \<Rightarrow> bool \<times> point2f" where
  "checkIntersection (Vec4i a0 a1 a2 a3) (Vec4i b0 b1 b2 b3) imageSize r =
     (let o1 = Point2f (of_int a0) (of_int a1);
          p1 = Point2f (of_int a2) (of_int a3);
          o2 = Point2f (of_int b0) (of_int b1);
          p2 = Point2f (of_int b2) (of_int b3);
          x = pt_sub o2 o1;
          d1 = pt_sub p1 o1;
          d2 = pt_sub p2 o2;
          cross = pt_x d1 * pt_y d2 - pt_y d1 * pt_x d2
      in if \<bar>cross\<bar> < 1 / 10 ^ 8 then (False, r)
         else
           (let t1 = (pt_x x * pt_y d2 - pt_y x * pt_x d2) / cross;
                r' = pt_add o1 (pt_scale d1 t1)
            in (pt_x r' \<ge> 0 \<and> pt_y r' \<ge> 0 \<and> pt_x r' < of_int (size_width imageSize)
                  \<and> pt_y r' < of_int (size_height imageSize), r')))"

fun arePointsNearby :: "point2f \<Rightarrow> point2f list \<Rightarrow> real \<Rightarrow> bool" where
  "arePointsNearby point [] distance = False"
| "arePointsNearby point (p # points) distance =
     (let dist = distMacro point p in
      if dist \<le> distance then True else arePointsNearby point points distance)"

subsection \<open>getIntersections\<close>

text \<open>
  The body of the double loop over line pairs \<open>i < j\<close>, the two loops, and the function.
  \<open>lines[i]\<close> and \<open>lines[j]\<close> are always read inside the vector, since both loops are
  bounded by \<open>lines.size()\<close>. \<open>intersections\<close> is the accumulator the caller passes by
  reference and the model returns. The drawing under \<open>showIntersections\<close> and the
  \<open>printf\<close> are left out.

  \<open>std::sort\<close> is the standard library's. Its contract asks for a strict weak ordering, which
  comparePoints is not, so nothing about the resulting order is taken for granted: the sort is
  a parameter \<open>std_sort\<close> of the model, and the theorems that speak of the sorted result
  assume only that it is a permutation of its input.
\<close>

definition getIntersections_body ::
  "'a mat \<Rightarrow> vec4i list \<Rightarrow> size2i \<Rightarrow> nat \<Rightarrow> nat \<Rightarrow> point2f list \<Rightarrow> point2f list" where
  "getIntersections_body dst lines imageSize i j intersections =
     (let line1 = lines ! i;
          line2 = lines ! j;
          (hasIntersection, intersection) = checkIntersection line1 line2 imageSize (Point2f 0 0)
      in if hasIntersection \<and> (pt_x intersection > 25 \<and> pt_x intersection < of_int (mat_cols dst - 25)
              \<and> pt_y intersection > 25 \<and> pt_y intersection < of_int (mat_rows dst - 25))
         then (let nearby = arePointsNearby intersection intersections 30 in
               if \<not> nearby then intersections @ [intersection] else intersections)
         else intersections)"

fun getIntersections_inner ::
  "'a mat \<Rightarrow> vec4i list \<Rightarrow> size2i \<Rightarrow> nat \<Rightarrow> nat list \<Rightarrow> point2f list \<Rightarrow> point2f list" where
  "getIntersections_inner dst lines imageSize i [] intersections = intersections"
| "getIntersections_inner dst lines imageSize i (j # js) intersections =
     getIntersections_inner dst lines imageSize i js
       (getIntersections_body dst lines imageSize i j intersections)"

fun getIntersections_outer ::
  "'a mat \<Rightarrow> vec4i list \<Rightarrow> size2i \<Rightarrow> nat list \<Rightarrow> point2f list \<Rightarrow> point2f list" where
  "getIntersections_outer dst lines imageSize [] intersections = intersections"
| "getIntersections_outer dst lines imageSize (i # is) intersections =
     getIntersections_outer dst lines imageSize is
       (getIntersections_inner dst lines imageSize i [i + 1..<length lines] intersections)"

definition getIntersections ::
  "((point2f \<Rightarrow> point2f \<Rightarrow> bool) \<Rightarrow> point2f list \<Rightarrow> point2f list) \<Rightarrow>
   'a mat \<Rightarrow> vec4i list \<Rightarrow> size2i \<Rightarrow> point2f list \<Rightarrow> point2f list" where
  "getIntersections std_sort dst lines imageSize intersections =
     std_sort comparePoints
       (getIntersections_outer dst lines imageSize [0..<length lines] intersections)"

text \<open>An insertion sort, as one sort that returns a permutation, and test inputs: two
  horizontal and two vertical lines forming one square, with a third horizontal line 10 below
  the first, on a 500 x 500 image.\<close>

fun insert_by :: "('a \<Rightarrow> 'a \<Rightarrow> bool) \<Rightarrow> 'a \<Rightarrow> 'a list \<Rightarrow> 'a list" where
  "insert_by lt x [] = [x]"
| "insert_by lt x (y # ys) = (if lt x y then x # y # ys else y # insert_by lt x ys)"

fun insertion_sort :: "('a \<Rightarrow> 'a \<Rightarrow> bool) \<Rightarrow> 'a list \<Rightarrow> 'a list" where
  "insertion_sort lt [] = []"
| "insertion_sort lt (x # xs) = insert_by lt x (insertion_sort lt xs)"

definition board_lines :: "vec4i list" where
  "board_lines = [Vec4i 50 100 450 100, Vec4i 50 200 450 200, Vec4i 50 110 450 110,
                  Vec4i 100 50 100 450, Vec4i 200 50 200 450]"

definition blank :: "unit mat" where
  "blank = Mat 500 500 (\<lambda>r c. ())"

text \<open>The invariant of the accumulator: no point twice, and any two points more than 30
  apart.\<close>

definition separated :: "point2f list \<Rightarrow> bool" where
  "separated ps = (distinct ps \<and> (\<forall>p\<in>set ps. \<forall>q\<in>set ps. p \<noteq> q \<longrightarrow> 30 < distMacro p q))"

section \<open>chessAnalysis.cpp\<close>

subsection \<open>getFenFromLabels\<close>

text \<open>
  The global \<open>pieceToFen\<close> is an \<open>unordered_map\<close> read with \<open>at\<close>, which throws
  \<open>std::out_of_range\<close> for a key it does not hold. \<open>std::to_string\<close> of an
  \<open>int\<close> is its decimal notation.
\<close>

definition pieceToFen :: "(string \<times> string) list" where
  "pieceToFen =
     [(''wp'', ''P''), (''wn'', ''N''), (''wb'', ''B''), (''wr'', ''R''), (''wq'', ''Q''),
      (''wk'', ''K''), (''bp'', ''p''), (''bn'', ''n''), (''bb'', ''b''), (''br'', ''r''),
      (''bq'', ''q''), (''bk'', ''k'')]"

definition map_at :: "('k \<times> 'v) list \<Rightarrow> 'k \<Rightarrow> failure + 'v" where
  "map_at m k = (case map_of m k of None \<Rightarrow> Inl StdOutOfRange | Some v \<Rightarrow> Inr v)"

fun digits10 :: "nat \<Rightarrow> string" where
  "digits10 n =
     (if n < 10 then [''0123456789'' ! n] else digits10 (n div 10) @ [''0123456789'' ! (n mod 10)])"

definition to_string :: "int \<Rightarrow> string" where
  "to_string i = (if i < 0 then CHR ''-'' # digits10 (nat (- i)) else digits10 (nat i))"

text \<open>
  The loop keeps the string built so far and the count of empty squares not yet written. The
  block that writes a pending count and resets it occurs twice in the loop body, before the
  row separator and before a piece letter; it is \<open>flushEmpty\<close>. \<open>squareLabels[i]\<close> is
  always read inside the vector, the loop being bounded by its size.
\<close>

definition flushEmpty :: "string \<times> int \<Rightarrow> string \<times> int" where
  "flushEmpty st =
     (case st of (fen, currentEmpty) \<Rightarrow>
        if currentEmpty > 0 then (fen @ to_string currentEmpty, 0) else (fen, currentEmpty))"

fun getFenFromLabels_loop ::
  "string list \<Rightarrow> nat list \<Rightarrow> string \<times> int \<Rightarrow> failure + string \<times> int" where
  "getFenFromLabels_loop squareLabels [] st = Inr st"
| "getFenFromLabels_loop squareLabels (i # is) st =
     (let (fen, currentEmpty) =
            (if i mod 8 = 0 \<and> i \<noteq> 0
             then (case flushEmpty st of (fen, currentEmpty) \<Rightarrow> (fen @ ''/'', currentEmpty))
             else st)
      in if squareLabels ! i = ''ee''
         then getFenFromLabels_loop squareLabels is (fen, currentEmpty + 1)
         else (case flushEmpty (fen, currentEmpty) of (fen, currentEmpty) \<Rightarrow>
                 (case map_at pieceToFen (squareLabels ! i) of
                    Inl e \<Rightarrow> Inl e
                  | Inr c \<Rightarrow> getFenFromLabels_loop squareLabels is (fen @ c, currentEmpty))))"

text \<open>
  The prompt loop \<open>while (turn != "w" && turn != "b") std::cin >> turn\<close>, on the words still
  waiting on standard input. Once the input is exhausted the extraction fails and leaves
  \<open>turn\<close> empty, so the source loops for ever: that is the outcome \<open>StdinExhausted\<close>.
\<close>

fun read_turn :: "string list \<Rightarrow> string \<Rightarrow> failure + string" where
  "read_turn [] turn = (if turn \<noteq> ''w'' \<and> turn \<noteq> ''b'' then Inl StdinExhausted else Inr turn)"
| "read_turn (word # cin) turn =
     (if turn \<noteq> ''w'' \<and> turn \<noteq> ''b'' then read_turn cin word else Inr turn)"

text \<open>
  The function itself: the size guard with its early return of the empty string (after a
  \<open>printf\<close> of the size found), the loop, the blank, the turn and the fixed tail. Nothing is
  written between the end of the loop and the blank. The \<open>printf\<close>s are left out.
\<close>

definition getFenFromLabels :: "string list \<Rightarrow> string list \<Rightarrow> failure + string" where
  "getFenFromLabels squareLabels cin =
     (if length squareLabels \<noteq> 64 then Inr ''''
      else (case getFenFromLabels_loop squareLabels [0..<length squareLabels] ('''', 0) of
              Inl e \<Rightarrow> Inl e
            | Inr (fen, currentEmpty) \<Rightarrow>
                (case read_turn cin '''' of
                   Inl e \<Rightarrow> Inl e
                 | Inr turn \<Rightarrow> Inr (((fen @ '' '') @ turn) @ '' - - 0 0''))))"

text \<open>A test board: a white king on e1 and nothing else.\<close>

definition lone_king :: "string list" where
  "lone_king = replicate 60 ''ee'' @ [''wk''] @ replicate 3 ''ee''"

section \<open>pieceDetectionOps.cpp\<close>

subsection \<open>Images and the operations of OpenCV\<close>

text \<open>
  A byte is a \<open>uchar\<close>, a pixel of a colour image a \<open>cv::Vec3b\<close>.
  \<open>m(roi)\<close> on a \<open>cv::Mat\<close> asserts that the region lies inside the matrix and throws a
  \<open>cv::Exception\<close> otherwise; the result shows the region's elements. \<open>cv::sum\<close> adds
  the elements up.
\<close>

type_synonym uchar = "8 word"

type_synonym vec3b = "uchar \<times> uchar \<times> uchar"

definition mat_roi :: "'a mat \<Rightarrow> rect \<Rightarrow> failure + 'a mat" where
  "mat_roi m roi =
     (if 0 \<le> rect_x roi \<and> 0 \<le> rect_width roi \<and> rect_x roi + rect_width roi \<le> mat_cols m
         \<and> 0 \<le> rect_y roi \<and> 0 \<le> rect_height roi \<and> rect_y roi + rect_height roi \<le> mat_rows m
      then Inr (Mat (rect_height roi) (rect_width roi)
                  (\<lambda>r c. mat_px m (rect_y roi + r) (rect_x roi + c)))
      else Inl CvRoiOutside)"

definition mat_sum :: "uchar mat \<Rightarrow> int" where
  "mat_sum m =
     sum_list (map (\<lambda>r. sum_list (map (\<lambda>c. uint (mat_px m r c)) [0..mat_cols m - 1]))
       [0..mat_rows m - 1])"

text \<open>
  What this file calls and does not define, taken as parameters: the grey conversion and the
  Canny edge detector of OpenCV; the network's forward pass followed by \<open>minMaxLoc\<close>, as the
  arg-max class index of a square; and computeHistogramDiffs on the corpus read from the
  dark-square or the light-square CSV file, according to the flag.
\<close>

record cv_ops =
  cvtColor_BGR2GRAY :: "vec3b mat \<Rightarrow> uchar mat"
  Canny :: "uchar mat \<Rightarrow> int \<Rightarrow> int \<Rightarrow> uchar mat"
  net_argmax :: "vec3b mat \<Rightarrow> int"
  computeHistogramDiffs :: "vec3b mat \<Rightarrow> rect \<Rightarrow> bool \<Rightarrow> failure + string"

subsection \<open>isEmptySpace\<close>

text \<open>
  The window is the central part of the square, from 0.2 to 0.8 of its width and height; the
  four bounds are floats that \<open>cv::Rect\<close> rounds. For an \<open>int\<close> width the exact products
  lie at least 0.1 away from a tie, so the float rounding does not change the rounded bound.
  The flag \<open>isDarkSquare\<close> occurs in the body only inside comments.
\<close>

definition isEmptySpace :: "cv_ops \<Rightarrow> vec3b mat \<Rightarrow> rect \<Rightarrow> bool \<Rightarrow> failure + bool" where
  "isEmptySpace cv img currentRect isDarkSquare =
     (let startX = of_int (rect_width currentRect) * 0.2;
          endX = of_int (rect_width currentRect) * 0.8;
          startY = of_int (rect_height currentRect) * 0.2;
          endY = of_int (rect_height currentRect) * 0.8
      in case mat_roi img currentRect of
           Inl e \<Rightarrow> Inl e
         | Inr square \<Rightarrow>
             (let temp = cvtColor_BGR2GRAY cv square;
                  temp = Canny cv temp 10 250
              in case mat_roi temp (cvRect (Point2f startX startY) (Point2f endX endY)) of
                   Inl e \<Rightarrow> Inl e
                 | Inr regionToCheck \<Rightarrow>
                     (let cannySum = (of_int (mat_sum regionToCheck) :: real)
                      in Inr (cannySum < 7000))))"

subsection \<open>getNNPieceLabel\<close>

text \<open>\<open>PIECE_VALUES\<close> is a C array of 12 strings, indexed by the \<open>int\<close> class index with a
  plain \<open>[]\<close>.\<close>

definition PIECE_VALUES :: "string list" where
  "PIECE_VALUES = [''bb'', ''bk'', ''bn'', ''bp'', ''bq'', ''br'',
                   ''wb'', ''wk'', ''wn'', ''wp'', ''wq'', ''wr'']"

definition array_at :: "'a list \<Rightarrow> int \<Rightarrow> failure + 'a" where
  "array_at a i = (if 0 \<le> i \<and> i < int (length a) then Inr (a ! nat i) else Inl (UndefinedRead i))"

definition getNNPieceLabel :: "cv_ops \<Rightarrow> vec3b mat \<Rightarrow> rect \<Rightarrow> failure + string" where
  "getNNPieceLabel cv img currentRect =
     (case mat_roi img currentRect of
        Inl e \<Rightarrow> Inl e
      | Inr square \<Rightarrow>
          (let classId = net_argmax cv square
           in array_at PIECE_VALUES classId))"

subsection \<open>getPieceLabels and getPieceLabelsNN\<close>

text \<open>
  Both loops for \<open>showLabels = false\<close>, the default, where nothing is drawn and \<open>temp\<close> stays
  a copy of \<open>dst\<close>. Beside the labels the model returns \<open>passed\<close>, the log of the
  \<open>isDarkSquare\<close> argument of each call of isEmptySpace in order; the source has no such
  variable. getPieceLabels switches the flag unless \<open>current % 8 == 7\<close>; getPieceLabelsNN has
  no counter and switches it after every square.
\<close>

fun getPieceLabels_loop ::
  "cv_ops \<Rightarrow> vec3b mat \<Rightarrow> vec3b mat \<Rightarrow> rect list \<Rightarrow> nat \<times> bool \<times> string list \<times> bool list \<Rightarrow>
   failure + string list \<times> bool list" where
  "getPieceLabels_loop cv dst temp [] (current, isDarkSquare, squareLabels, passed) =
     Inr (squareLabels, passed)"
| "getPieceLabels_loop cv dst temp (currentRect # rectangles)
       (current, isDarkSquare, squareLabels, passed) =
     (case isEmptySpace cv temp currentRect isDarkSquare of
        Inl e \<Rightarrow> Inl e
      | Inr isEmpty \<Rightarrow>
          (case (if isEmpty then Inr ''ee''
                 else computeHistogramDiffs cv dst currentRect isDarkSquare) of
             Inl e \<Rightarrow> Inl e
           | Inr currentLabel \<Rightarrow>
               getPieceLabels_loop cv dst temp rectangles
                 (current + 1,
                  (if current mod 8 \<noteq> 7 then \<not> isDarkSquare else isDarkSquare),
                  squareLabels @ [currentLabel],
                  passed @ [isDarkSquare])))"

definition getPieceLabels ::
  "cv_ops \<Rightarrow> vec3b mat \<Rightarrow> rect list \<Rightarrow> string list \<Rightarrow> failure + string list \<times> bool list" where
  "getPieceLabels cv dst rectangles squareLabels =
     getPieceLabels_loop cv dst dst rectangles (0, False, squareLabels, [])"

fun getPieceLabelsNN_loop ::
  "cv_ops \<Rightarrow> vec3b mat \<Rightarrow> vec3b mat \<Rightarrow> rect list \<Rightarrow> bool \<times> string list \<times> bool list \<Rightarrow>
   failure + string list \<times> bool list" where
  "getPieceLabelsNN_loop cv dst temp [] (isDarkSquare, squareLabels, passed) =
     Inr (squareLabels, passed)"
| "getPieceLabelsNN_loop cv dst temp (currentRect # rectangles)
       (isDarkSquare, squareLabels, passed) =
     (case isEmptySpace cv temp currentRect isDarkSquare of
        Inl e \<Rightarrow> Inl e
      | Inr isEmpty \<Rightarrow>
          (case (if isEmpty then Inr ''ee'' else getNNPieceLabel cv dst currentRect) of
             Inl e \<Rightarrow> Inl e
           | Inr currentLabel \<Rightarrow>
               getPieceLabelsNN_loop cv dst temp rectangles
                 (\<not> isDarkSquare, squareLabels @ [currentLabel], passed @ [isDarkSquare])))"

definition getPieceLabelsNN ::
  "cv_ops \<Rightarrow> vec3b mat \<Rightarrow> rect list \<Rightarrow> string list \<Rightarrow> failure + string list \<times> bool list" where
  "getPieceLabelsNN cv dst rectangles squareLabels =
     getPieceLabelsNN_loop cv dst dst rectangles (False, squareLabels, [])"

subsection \<open>computeHistogramIntersectionDifference\<close>

text \<open>
  The overload on two \<open>std::vector<float>\<close>. On vectors of different sizes it prints
  \<open>Size issues...\<close> and goes on: the loop runs over the indices of \<open>h1\<close> and reads
  \<open>h2\<close> at each of them. The \<open>printf\<close> is left out.
\<close>

fun computeHistogramIntersectionDifference_loop ::
  "real list \<Rightarrow> real list \<Rightarrow> nat list \<Rightarrow> real \<Rightarrow> failure + real" where
  "computeHistogramIntersectionDifference_loop h1 h2 [] intersection = Inr intersection"
| "computeHistogramIntersectionDifference_loop h1 h2 (i # is) intersection =
     (case vec_at h1 i of
        Inl e \<Rightarrow> Inl e
      | Inr a \<Rightarrow>
          (case vec_at h2 i of
             Inl e \<Rightarrow> Inl e
           | Inr b \<Rightarrow>
               computeHistogramIntersectionDifference_loop h1 h2 is (intersection + min a b)))"

definition computeHistogramIntersectionDifference :: "real list \<Rightarrow> real list \<Rightarrow> failure + real" where
  "computeHistogramIntersectionDifference h1 h2 =
     (case computeHistogramIntersectionDifference_loop h1 h2 [0..<length h1] 0 of
        Inl e \<Rightarrow> Inl e
      | Inr intersection \<Rightarrow> Inr (1 - intersection))"

text \<open>
  Test inputs: an 80 x 80 image with its 64 squares of side 10, and two instances of the
  parameters, one whose edge image is black everywhere and one whose edge image is white
  everywhere, each with a network that always answers class \<open>k\<close>. The checkerboard colour of
  a square, and reading one logged flag out of a result.
\<close>

definition flat_ops :: "int \<Rightarrow> cv_ops" where
  "flat_ops k =
     \<lparr> cvtColor_BGR2GRAY = (\<lambda>m. Mat (mat_rows m) (mat_cols m) (\<lambda>r c. 0)),
       Canny = (\<lambda>m lo hi. m),
       net_argmax = (\<lambda>m. k),
       computeHistogramDiffs = (\<lambda>m r dark. Inr (if dark then ''bp'' else ''wp'')) \<rparr>"

definition edgy_ops :: "int \<Rightarrow> cv_ops" where
  "edgy_ops k =
     \<lparr> cvtColor_BGR2GRAY = (\<lambda>m. Mat (mat_rows m) (mat_cols m) (\<lambda>r c. 255)),
       Canny = (\<lambda>m lo hi. m),
       net_argmax = (\<lambda>m. k),
       computeHistogramDiffs = (\<lambda>m r dark. Inr (if dark then ''bp'' else ''wp'')) \<rparr>"

definition photo :: "vec3b mat" where
  "photo = Mat 80 80 (\<lambda>r c. (0, 0, 0))"

definition squares64 :: "rect list" where
  "squares64 = concat (map (\<lambda>row. map (\<lambda>col. Rect (10 * int col) (10 * int row) 10 10) [0..<8]) [0..<8])"

definition checkerboard :: "nat \<Rightarrow> bool" where
  "checkerboard i = odd (i div 8 + i mod 8)"

definition flag_passed :: "failure + string list \<times> bool list \<Rightarrow> nat \<Rightarrow> bool option" where
  "flag_passed res i =
     (case res of
        Inl e \<Rightarrow> None
      | Inr (squareLabels, passed) \<Rightarrow> if i < length passed then Some (passed ! i) else None)"

section \<open>Properties of the rounding\<close>

text \<open>The exponent is the right one over the normal range, and \<open>fl32\<close> on some known
  values: the floats written 0.1 and 8.1, a tie going to the even significand, a subnormal.\<close>

lemma pow2_nat: "0 \<le> e \<Longrightarrow> pow2 e = 2 ^ nat e"
  by (simp add: pow2_def)

lemma pow2_neg: "0 \<le> e \<Longrightarrow> pow2 (- e) = 1 / 2 ^ nat e"
  by (cases "e = 0") (simp_all add: pow2_def)

lemma binade_correct:
  assumes lo: "pow2 (- 126) \<le> a" and hi: "a < pow2 128"
  shows "pow2 (binade a) \<le> a \<and> a < pow2 (binade a + 1)"
proof (cases "1 \<le> a")
  case True
  let ?n = "\<lfloor>a\<rfloor>"
  let ?k = "bitlen ?n"
  have n: "0 < ?n" using True by simp
  from bitlen_bounds [OF n] have b: "2 ^ nat (?k - 1) \<le> ?n" "?n < 2 ^ nat ?k" by simp_all
  have k: "0 < ?k" using n bitlen_eq_zero_iff [of ?n] bitlen_nonneg [of ?n] by linarith
  have "a < 2 ^ 128" using hi by (simp add: pow2_def)
  then have n128: "?n < 2 ^ 128" by (simp add: floor_less_iff)
  have "?k \<le> 128"
  proof (rule ccontr)
    assume "\<not> ?k \<le> 128"
    then have "128 \<le> nat (?k - 1)" by simp
    then have "(2::int) ^ 128 \<le> 2 ^ nat (?k - 1)" by (intro power_increasing) simp_all
    with b(1) n128 show False by linarith
  qed
  then have e: "binade a = ?k - 1" using True by (simp add: binade_def)
  from b(1) have "of_int (2 ^ nat (?k - 1)) \<le> a" by (simp only: le_floor_iff)
  then have l: "2 ^ nat (?k - 1) \<le> a" by simp
  from b(2) have "a < of_int (2 ^ nat ?k)" by (simp only: floor_less_iff)
  then have u: "a < 2 ^ nat ?k" by simp
  from l u k show ?thesis unfolding e by (simp add: pow2_nat)
next
  case False
  have "0 < pow2 (- 126)" by (simp add: pow2_def)
  with lo have pos: "0 < a" by linarith
  let ?m = "\<lceil>1 / a\<rceil> - 1"
  let ?k = "bitlen ?m"
  have inv: "1 < 1 / a" using False pos by simp
  then have c2: "2 \<le> \<lceil>1 / a\<rceil>" by linarith
  then have m: "0 < ?m" by simp
  from bitlen_bounds [OF m] have b: "2 ^ nat (?k - 1) \<le> ?m" "?m < 2 ^ nat ?k" by simp_all
  have k: "0 < ?k" using m bitlen_eq_zero_iff [of ?m] bitlen_nonneg [of ?m] by linarith
  have "1 / a \<le> 2 ^ 126" using lo pos by (simp add: pow2_def field_simps)
  then have "\<lceil>1 / a\<rceil> \<le> 2 ^ 126" by (simp add: ceiling_le_iff)
  then have m126: "?m < 2 ^ 126" by simp
  have k126: "?k \<le> 126"
  proof (rule ccontr)
    assume "\<not> ?k \<le> 126"
    then have "126 \<le> nat (?k - 1)" by simp
    then have "(2::int) ^ 126 \<le> 2 ^ nat (?k - 1)" by (intro power_increasing) simp_all
    with b(1) m126 show False by linarith
  qed
  then have e: "binade a = - ?k" using False pos by (simp add: binade_def)
  from b(2) have "\<lceil>1 / a\<rceil> \<le> 2 ^ nat ?k" by linarith
  then have "1 / a \<le> of_int (2 ^ nat ?k)" by (simp only: ceiling_le_iff)
  then have "1 / a \<le> 2 ^ nat ?k" by simp
  then have l: "1 / 2 ^ nat ?k \<le> a" using pos by (simp add: field_simps)
  from b(1) have "2 ^ nat (?k - 1) < \<lceil>1 / a\<rceil>" by linarith
  then have "of_int (2 ^ nat (?k - 1)) < 1 / a" by (simp only: less_ceiling_iff)
  then have "2 ^ nat (?k - 1) < 1 / a" by simp
  then have u: "a < 1 / 2 ^ nat (?k - 1)" using pos by (simp add: field_simps)
  have s: "- ?k + 1 = - (?k - 1)" by simp
  have "pow2 (- ?k) = 1 / 2 ^ nat ?k" using k by (intro pow2_neg) simp
  moreover have "pow2 (- (?k - 1)) = 1 / 2 ^ nat (?k - 1)" using k by (intro pow2_neg) simp
  ultimately show ?thesis unfolding e s using l u by simp
qed

lemma fl32_examples:
  "fl32 (1 / 10) = 13421773 / 2 ^ 27" "fl32 (81 / 10) = 8493466 / 2 ^ 20"
  "fl32 16777217 = 16777216" "fl32 (- 16777219) = - 16777220" "fl32 68 = 68"
  "fl32 (3 / 2 ^ 150) = 2 / 2 ^ 149"
  by code_simp+

section \<open>Properties of comparePoints\<close>

text \<open>
  C5: comparePoints should be a strict weak ordering over all points that puts the point with
  the smaller y first when the y coordinates differ by more than 8, and the point with the
  smaller x first within the band. The code is neither. Three points of a row that falls by 5
  from one to the next, each kept by the deduplication, form a cycle: the first precedes the
  second, the second the third and the third the first, so the relation handed to
  \<open>std::sort\<close> is not transitive. And since the sum \<open>p.y + ySlack\<close> is rounded, two points
  whose y are the floats 0.1 and 8.1, more than 8 apart, compare as less in neither order, and
  so do two points whose y are the floats 0.2 and 8.2, less than 8 apart, with different x.
\<close>

theorem comparePoints_cycle_and_rounding:
  "comparePoints (Point2f 100 60) (Point2f 200 55)
   \<and> comparePoints (Point2f 200 55) (Point2f 300 50)
   \<and> comparePoints (Point2f 300 50) (Point2f 100 60)
   \<and> \<not> comparePoints (Point2f 100 60) (Point2f 300 50)
   \<and> (13421773 / 2 ^ 27 :: real) + 8 < 8493466 / 2 ^ 20
   \<and> \<not> comparePoints (Point2f 0 (13421773 / 2 ^ 27)) (Point2f 1 (8493466 / 2 ^ 20))
   \<and> \<not> comparePoints (Point2f 1 (8493466 / 2 ^ 20)) (Point2f 0 (13421773 / 2 ^ 27))
   \<and> \<bar>(13421773 / 2 ^ 26 :: real) - 8598323 / 2 ^ 20\<bar> < 8
   \<and> \<not> comparePoints (Point2f 0 (13421773 / 2 ^ 26)) (Point2f 1 (8598323 / 2 ^ 20))
   \<and> \<not> comparePoints (Point2f 1 (8598323 / 2 ^ 20)) (Point2f 0 (13421773 / 2 ^ 26))"
  by code_simp

section \<open>Properties of setRectangles\<close>

lemma rint_bounds: "\<lfloor>v\<rfloor> \<le> rint v \<and> rint v \<le> \<lfloor>v\<rfloor> + 1"
  by (simp add: rint_def Let_def)

lemma rint_mono:
  assumes "a \<le> b"
  shows "rint a \<le> rint b"
proof (cases "\<lfloor>a\<rfloor> = \<lfloor>b\<rfloor>")
  case True
  with assms show ?thesis by (auto simp: rint_def Let_def)
next
  case False
  with floor_mono [OF assms] have "\<lfloor>a\<rfloor> < \<lfloor>b\<rfloor>" by linarith
  with rint_bounds [of a] rint_bounds [of b] show ?thesis by linarith
qed

lemma rint_of_int: "rint (of_int n) = n"
  by (simp add: rint_def)

lemma rint_bounded:
  assumes "\<bar>v\<bar> \<le> 10 ^ 9"
  shows "- (10 ^ 9) \<le> rint v \<and> rint v \<le> 10 ^ 9"
proof -
  have "of_int (- (10 ^ 9)) \<le> v" and "v \<le> of_int (10 ^ 9)" using assms by simp_all
  from rint_mono [OF this(1)] rint_mono [OF this(2)] show ?thesis
    by (simp only: rint_of_int)
qed

lemma cvRound_bounded: "\<bar>v\<bar> \<le> 10 ^ 9 \<Longrightarrow> cvRound v = rint v"
  using rint_bounded [of v] by (simp add: cvRound_def Let_def)

lemma int32_inside: "- (2 ^ 31) \<le> i \<Longrightarrow> i < 2 ^ 31 \<Longrightarrow> int32 i = i"
  by (simp add: int32_def)

lemma vec_at_in: "i < length v \<Longrightarrow> vec_at v i = Inr (v ! i)"
  by (simp add: vec_at_def)

lemma vec_at_Inl: "vec_at v i = Inl e \<Longrightarrow> e = UndefinedRead (int i) \<and> length v \<le> i"
  by (simp add: vec_at_def split: if_splits)

lemma setRectangles_cols_ok:
  "(\<And>col. col \<in> set cols \<Longrightarrow> (row + 1) * 9 + (col + 1) < length pts) \<Longrightarrow>
   setRectangles_cols pts row cols rects = Inr (rects @ map (region pts row) cols)"
proof (induction cols arbitrary: rects)
  case Nil
  then show ?case by simp
next
  case (Cons col cols)
  have br: "(row + 1) * 9 + (col + 1) < length pts" using Cons.prems by simp
  then have tl: "row * 9 + col < length pts" by simp
  show ?case
    using Cons.IH [of "rects @ [region pts row col]"] Cons.prems br tl
    by (simp add: vec_at_in region_def)
qed

lemma setRectangles_rows_ok:
  "(\<And>row. row \<in> set rows \<Longrightarrow> (row + 1) * 9 + 8 < length pts) \<Longrightarrow>
   setRectangles_rows pts rows rects =
     Inr (rects @ concat (map (\<lambda>row. map (region pts row) [0..<8]) rows))"
proof (induction rows arbitrary: rects)
  case Nil
  then show ?case by simp
next
  case (Cons row rows)
  have "setRectangles_cols pts row [0..<8] rects = Inr (rects @ map (region pts row) [0..<8])"
    using Cons.prems [of row] by (intro setRectangles_cols_ok) auto
  then show ?case using Cons.IH Cons.prems by simp
qed

lemma nth_concat_grid:
  "r < n \<Longrightarrow> c < m \<Longrightarrow> concat (map (\<lambda>r. map (f r) [0..<m]) [0..<n]) ! (r * m + c) = f r c"
proof (induction n)
  case 0
  then show ?case by simp
next
  case (Suc n)
  have len: "length (concat (map (\<lambda>r. map (f r) [0..<m]) [0..<n])) = n * m"
    by (induction n) simp_all
  show ?case
  proof (cases "r < n")
    case True
    then have "r * m + c < n * m"
      using Suc.prems(2) by (metis Suc_leI add.commute mult_Suc less_le_trans add_less_cancel_left mult_le_mono1)
    then show ?thesis using Suc.IH True Suc.prems(2) by (simp add: nth_append len)
  next
    case False
    then have "r = n" using Suc.prems(1) by simp
    then show ?thesis using Suc.prems(2) by (simp add: nth_append len)
  qed
qed


lemma setRectangles_cols_Inr:
  "setRectangles_cols pts row cols rects = Inr rs \<Longrightarrow> col \<in> set cols \<Longrightarrow>
   (row + 1) * 9 + (col + 1) < length pts"
  by (induction cols arbitrary: rects) (auto simp: vec_at_def split: sum.splits if_splits)

lemma setRectangles_cols_Inl:
  "setRectangles_cols pts row cols rects = Inl e \<Longrightarrow>
   \<exists>i. e = UndefinedRead (int i) \<and> length pts \<le> i"
proof (induction cols arbitrary: rects)
  case Nil
  then show ?case by simp
next
  case (Cons col cols)
  show ?case
  proof (cases "vec_at pts (row * 9 + col)")
    case (Inl e')
    with Cons.prems have "e' = e" by simp
    with Inl vec_at_Inl show ?thesis by blast
  next
    case tl: (Inr topLeft)
    show ?thesis
    proof (cases "vec_at pts ((row + 1) * 9 + (col + 1))")
      case (Inl e')
      with Cons.prems tl have "e' = e" by simp
      with Inl vec_at_Inl show ?thesis by blast
    next
      case (Inr bottomRight)
      with Cons.prems tl
      have "setRectangles_cols pts row cols (rects @ [cvRect topLeft bottomRight]) = Inl e"
        by simp
      from Cons.IH [OF this] show ?thesis .
    qed
  qed
qed

lemma setRectangles_rows_Inr:
  "setRectangles_rows pts rows rects = Inr rs \<Longrightarrow> row \<in> set rows \<Longrightarrow>
   (row + 1) * 9 + 8 < length pts"
proof (induction rows arbitrary: rects)
  case Nil
  then show ?case by simp
next
  case (Cons r rows)
  from Cons.prems(1) obtain rects' where
    c: "setRectangles_cols pts r [0..<8] rects = Inr rects'" and
    r: "setRectangles_rows pts rows rects' = Inr rs"
    by (auto split: sum.splits)
  show ?case
  proof (cases "row = r")
    case True
    have "(7::nat) \<in> set [0..<8]" by simp
    from setRectangles_cols_Inr [OF c this] True show ?thesis by simp
  next
    case False
    with Cons.prems(2) have "row \<in> set rows" by simp
    from Cons.IH [OF r this] show ?thesis .
  qed
qed

lemma setRectangles_rows_Inl:
  "setRectangles_rows pts rows rects = Inl e \<Longrightarrow>
   \<exists>i. e = UndefinedRead (int i) \<and> length pts \<le> i"
proof (induction rows arbitrary: rects)
  case Nil
  then show ?case by simp
next
  case (Cons r rows)
  show ?case
  proof (cases "setRectangles_cols pts r [0..<8] rects")
    case (Inl e')
    with Cons.prems have "e' = e" by simp
    with Inl setRectangles_cols_Inl show ?thesis by blast
  next
    case (Inr rects')
    with Cons.prems have "setRectangles_rows pts rows rects' = Inl e" by simp
    from Cons.IH [OF this] show ?thesis .
  qed
qed

lemma cvRect_ordered:
  assumes "pt_x p \<le> pt_x q" and "pt_y p \<le> pt_y q"
    and "\<bar>pt_x p\<bar> \<le> 10 ^ 9" "\<bar>pt_y p\<bar> \<le> 10 ^ 9" "\<bar>pt_x q\<bar> \<le> 10 ^ 9" "\<bar>pt_y q\<bar> \<le> 10 ^ 9"
  shows "cvRect p q = Rect (rint (pt_x p)) (rint (pt_y p))
           (rint (pt_x q) - rint (pt_x p)) (rint (pt_y q) - rint (pt_y p))"
proof -
  have w: "int32 (rint (pt_x q) - rint (pt_x p)) = rint (pt_x q) - rint (pt_x p)"
    using rint_bounded [OF assms(3)] rint_bounded [OF assms(5)] rint_mono [OF assms(1)]
    by (intro int32_inside) simp_all
  have h: "int32 (rint (pt_y q) - rint (pt_y p)) = rint (pt_y q) - rint (pt_y p)"
    using rint_bounded [OF assms(4)] rint_bounded [OF assms(6)] rint_mono [OF assms(2)]
    by (intro int32_inside) simp_all
  show ?thesis
    using rint_mono [OF assms(1)] rint_mono [OF assms(2)] w h
    by (simp add: cvRect_def Rect_pts_def to_point2i_def Let_def
        cvRound_bounded [OF assms(3)] cvRound_bounded [OF assms(4)]
        cvRound_bounded [OF assms(5)] cvRound_bounded [OF assms(6)])
qed

text \<open>
  C1: given fewer than 81 intersection points, setRectangles should fail with a structured
  error before any out-of-range access. The code has no such check. For every vector shorter
  than 81 points, whatever rectangles were collected before, the run reaches an
  \<open>intersections[i]\<close> with \<open>i\<close> at or beyond the vector's length and reports
  nothing.
\<close>

theorem setRectangles_short_input_reads_outside:
  assumes "length intersections < 81"
  shows "\<exists>i. setRectangles intersections rectangles = Inl (UndefinedRead (int i))
             \<and> length intersections \<le> i"
proof (cases "setRectangles intersections rectangles")
  case (Inl e)
  then show ?thesis
    using setRectangles_rows_Inl [of intersections "[0..<8]" rectangles e]
    by (auto simp: setRectangles_def)
next
  case (Inr rs)
  have "(7::nat) \<in> set [0..<8]" by simp
  from setRectangles_rows_Inr [OF Inr [unfolded setRectangles_def] this] assms
  show ?thesis by simp
qed

theorem setRectangles_short_input_reads_outside_witness:
  "length (take 80 lattice81) < 81
   \<and> setRectangles (take 80 lattice81) [] = Inl (UndefinedRead 80)
   \<and> setRectangles [] [] = Inl (UndefinedRead 0)"
proof -
  have "setRectangles (take 80 lattice81) [] = Inl (UndefinedRead 80)"
    by code_simp
  moreover have "setRectangles [] [] = Inl (UndefinedRead 0)"
    by code_simp
  ultimately show ?thesis
    using setRectangles_short_input_reads_outside [of "take 80 lattice81" "[]"]
    by simp
qed

text \<open>
  C3 (as stated): region(0,0)'s top-left corner equals points[0]. A region is a \<open>cv::Rect\<close>
  with integer coordinates, so its corner is the point rounded to the nearest integers. On the
  regular lattice \<open>lattice81\<close>, whose first point is (0.75, 0.75), region 0 has its origin at
  (1, 1): neither the point nor the point truncated.
\<close>

theorem setRectangles_corner_is_rounded:
  "length lattice81 = 81
   \<and> lattice81 ! 0 = Point2f (3/4) (3/4) \<and> lattice81 ! 10 = Point2f (100 + 3/4) (100 + 3/4)
   \<and> region_at (setRectangles lattice81 []) 0 = Some (Rect 1 1 100 100)"
  by code_simp

text \<open>
  C3 (amended): for every input of exactly 81 points whose coordinates are at most 10^9 in
  magnitude, setRectangles appends exactly 64 regions to its output vector, in row-major order,
  and region number row*8+col is \<open>cv::Rect(point[row*9+col], point[(row+1)*9+(col+1)])\<close>.
  Where the first of the two points is neither to the right of nor below the second, as in
  sorted row-major order, the region spans from the first point rounded to the nearest integers
  (its top-left corner) to the second point rounded (its bottom-right corner); in particular
  the top-left corner of region(0,0) is then points[0] rounded to the nearest integers.
\<close>

theorem setRectangles_regions:
  assumes len: "length pts = 81"
    and bound: "\<forall>p\<in>set pts. \<bar>pt_x p\<bar> \<le> 10 ^ 9 \<and> \<bar>pt_y p\<bar> \<le> 10 ^ 9"
  shows "\<exists>rs. setRectangles pts rectangles = Inr (rectangles @ rs) \<and> length rs = 64
     \<and> (\<forall>row<8. \<forall>col<8.
          rs ! (row * 8 + col) = cvRect (pts ! (row * 9 + col)) (pts ! ((row + 1) * 9 + (col + 1)))
          \<and> (pt_x (pts ! (row * 9 + col)) \<le> pt_x (pts ! ((row + 1) * 9 + (col + 1)))
               \<and> pt_y (pts ! (row * 9 + col)) \<le> pt_y (pts ! ((row + 1) * 9 + (col + 1)))
             \<longrightarrow> rs ! (row * 8 + col) =
                   Rect (rint (pt_x (pts ! (row * 9 + col)))) (rint (pt_y (pts ! (row * 9 + col))))
                     (rint (pt_x (pts ! ((row + 1) * 9 + (col + 1)))) - rint (pt_x (pts ! (row * 9 + col))))
                     (rint (pt_y (pts ! ((row + 1) * 9 + (col + 1)))) - rint (pt_y (pts ! (row * 9 + col))))))
     \<and> (pt_x (pts ! 0) \<le> pt_x (pts ! 10) \<and> pt_y (pts ! 0) \<le> pt_y (pts ! 10)
        \<longrightarrow> rect_x (rs ! 0) = rint (pt_x (pts ! 0)) \<and> rect_y (rs ! 0) = rint (pt_y (pts ! 0)))"
proof -
  let ?rs = "concat (map (\<lambda>row. map (region pts row) [0..<8]) [0..<8])"
  have run: "setRectangles pts rectangles = Inr (rectangles @ ?rs)"
    unfolding setRectangles_def using len by (intro setRectangles_rows_ok) auto
  have len64: "length ?rs = 64" by (simp add: upt_conv_Cons)
  have cell: "?rs ! (row * 8 + col) = region pts row col" if "row < 8" "col < 8" for row col
    using nth_concat_grid [of row 8 col 8 "region pts"] that by simp
  have inb: "\<bar>pt_x (pts ! i)\<bar> \<le> 10 ^ 9 \<and> \<bar>pt_y (pts ! i)\<bar> \<le> 10 ^ 9" if "i < 81" for i
    using bound len that by (simp add: Ball_def in_set_conv_nth) blast
  have corners:
    "region pts row col =
       Rect (rint (pt_x (pts ! (row * 9 + col)))) (rint (pt_y (pts ! (row * 9 + col))))
         (rint (pt_x (pts ! ((row + 1) * 9 + (col + 1)))) - rint (pt_x (pts ! (row * 9 + col))))
         (rint (pt_y (pts ! ((row + 1) * 9 + (col + 1)))) - rint (pt_y (pts ! (row * 9 + col))))"
    if rc: "row < 8" "col < 8"
      and ord: "pt_x (pts ! (row * 9 + col)) \<le> pt_x (pts ! ((row + 1) * 9 + (col + 1)))"
         "pt_y (pts ! (row * 9 + col)) \<le> pt_y (pts ! ((row + 1) * 9 + (col + 1)))"
    for row col
  proof -
    have "row * 9 + col < 81" and "(row + 1) * 9 + (col + 1) < 81" using rc by simp_all
    from inb [OF this(1)] inb [OF this(2)] show ?thesis
      unfolding region_def by (intro cvRect_ordered ord) simp_all
  qed
  have first: "?rs ! 0 = region pts 0 0"
    using cell [of 0 0] by simp
  have origin: "rect_x (?rs ! 0) = rint (pt_x (pts ! 0)) \<and> rect_y (?rs ! 0) = rint (pt_y (pts ! 0))"
    if "pt_x (pts ! 0) \<le> pt_x (pts ! 10)" "pt_y (pts ! 0) \<le> pt_y (pts ! 10)"
    unfolding first using corners [of 0 0] that by simp
  show ?thesis
  proof (intro exI [of _ ?rs] conjI allI impI)
    show "setRectangles pts rectangles = Inr (rectangles @ ?rs)" by (rule run)
    show "length ?rs = 64" by (rule len64)
  next
    fix row col :: nat
    assume rc: "row < 8" "col < 8"
    show "?rs ! (row * 8 + col)
            = cvRect (pts ! (row * 9 + col)) (pts ! ((row + 1) * 9 + (col + 1)))"
      using cell [OF rc] by (simp add: region_def)
    assume ord: "pt_x (pts ! (row * 9 + col)) \<le> pt_x (pts ! ((row + 1) * 9 + (col + 1)))
       \<and> pt_y (pts ! (row * 9 + col)) \<le> pt_y (pts ! ((row + 1) * 9 + (col + 1)))"
    from corners [OF rc] ord
    show "?rs ! (row * 8 + col) =
       Rect (rint (pt_x (pts ! (row * 9 + col)))) (rint (pt_y (pts ! (row * 9 + col))))
         (rint (pt_x (pts ! ((row + 1) * 9 + (col + 1)))) - rint (pt_x (pts ! (row * 9 + col))))
         (rint (pt_y (pts ! ((row + 1) * 9 + (col + 1)))) - rint (pt_y (pts ! (row * 9 + col))))"
      unfolding cell [OF rc] by blast
  next
    assume "pt_x (pts ! 0) \<le> pt_x (pts ! 10) \<and> pt_y (pts ! 0) \<le> pt_y (pts ! 10)"
    then show "rect_x (?rs ! 0) = rint (pt_x (pts ! 0))" using origin by blast
  next
    assume "pt_x (pts ! 0) \<le> pt_x (pts ! 10) \<and> pt_y (pts ! 0) \<le> pt_y (pts ! 10)"
    then show "rect_y (?rs ! 0) = rint (pt_y (pts ! 0))" using origin by blast
  qed
qed

theorem setRectangles_regions_witness:
  "length lattice81 = 81
   \<and> list_all (\<lambda>p. \<bar>pt_x p\<bar> \<le> 10 ^ 9 \<and> \<bar>pt_y p\<bar> \<le> 10 ^ 9) lattice81
   \<and> pt_x (lattice81 ! 0) \<le> pt_x (lattice81 ! 10) \<and> pt_y (lattice81 ! 0) \<le> pt_y (lattice81 ! 10)
   \<and> pt_x (lattice81 ! 11) \<le> pt_x (lattice81 ! 21) \<and> pt_y (lattice81 ! 11) \<le> pt_y (lattice81 ! 21)
   \<and> (\<exists>rs. setRectangles lattice81 [Rect 5 5 5 5] = Inr ([Rect 5 5 5 5] @ rs) \<and> length rs = 64
         \<and> rs ! 10 = cvRect (lattice81 ! 11) (lattice81 ! 21)
         \<and> rs ! 10 = Rect 201 101 100 100
         \<and> rect_x (rs ! 0) = 1 \<and> rect_y (rs ! 0) = 1)"
proof -
  have l: "length lattice81 = 81" by code_simp
  have b: "list_all (\<lambda>p. \<bar>pt_x p\<bar> \<le> 10 ^ 9 \<and> \<bar>pt_y p\<bar> \<le> 10 ^ 9) lattice81" by code_simp
  then have b': "\<forall>p\<in>set lattice81. \<bar>pt_x p\<bar> \<le> 10 ^ 9 \<and> \<bar>pt_y p\<bar> \<le> 10 ^ 9"
    by (simp add: list_all_iff)
  have p0: "lattice81 ! 0 = Point2f (3/4) (3/4)" by code_simp
  have p10: "lattice81 ! 10 = Point2f (403/4) (403/4)" by code_simp
  have p11: "lattice81 ! 11 = Point2f (803/4) (403/4)" by code_simp
  have p21: "lattice81 ! 21 = Point2f (1203/4) (803/4)" by code_simp
  have r: "rint (3/4) = 1" "rint (403/4) = 101" "rint (803/4) = 201" "rint (1203/4) = 301"
    by (simp_all add: rint_def)
  have lt: "(1::nat) < 8" "(2::nat) < 8" by simp_all
  have idx: "(1::nat) * 8 + 2 = 10" "(1::nat) * 9 + 2 = 11" "((1::nat) + 1) * 9 + (2 + 1) = 21"
    by simp_all
  from setRectangles_regions [OF l b', of "[Rect 5 5 5 5]"] obtain rs where
    run: "setRectangles lattice81 [Rect 5 5 5 5] = Inr ([Rect 5 5 5 5] @ rs)" and
    len: "length rs = 64" and
    cells: "\<forall>row<8. \<forall>col<8.
          rs ! (row * 8 + col) = cvRect (lattice81 ! (row * 9 + col)) (lattice81 ! ((row + 1) * 9 + (col + 1)))
          \<and> (pt_x (lattice81 ! (row * 9 + col)) \<le> pt_x (lattice81 ! ((row + 1) * 9 + (col + 1)))
               \<and> pt_y (lattice81 ! (row * 9 + col)) \<le> pt_y (lattice81 ! ((row + 1) * 9 + (col + 1)))
             \<longrightarrow> rs ! (row * 8 + col) =
                   Rect (rint (pt_x (lattice81 ! (row * 9 + col)))) (rint (pt_y (lattice81 ! (row * 9 + col))))
                     (rint (pt_x (lattice81 ! ((row + 1) * 9 + (col + 1)))) - rint (pt_x (lattice81 ! (row * 9 + col))))
                     (rint (pt_y (lattice81 ! ((row + 1) * 9 + (col + 1)))) - rint (pt_y (lattice81 ! (row * 9 + col)))))" and
    origin: "pt_x (lattice81 ! 0) \<le> pt_x (lattice81 ! 10) \<and> pt_y (lattice81 ! 0) \<le> pt_y (lattice81 ! 10)
        \<longrightarrow> rect_x (rs ! 0) = rint (pt_x (lattice81 ! 0)) \<and> rect_y (rs ! 0) = rint (pt_y (lattice81 ! 0))"
    by blast
  have o0: "pt_x (lattice81 ! 0) \<le> pt_x (lattice81 ! 10) \<and> pt_y (lattice81 ! 0) \<le> pt_y (lattice81 ! 10)"
    by (simp add: p0 p10)
  have o1: "pt_x (lattice81 ! 11) \<le> pt_x (lattice81 ! 21) \<and> pt_y (lattice81 ! 11) \<le> pt_y (lattice81 ! 21)"
    by (simp add: p11 p21)
  note inst = cells [rule_format, OF lt, unfolded idx]
  from inst have c1: "rs ! 10 = cvRect (lattice81 ! 11) (lattice81 ! 21)" by blast
  from inst o1 have "rs ! 10 =
       Rect (rint (pt_x (lattice81 ! 11))) (rint (pt_y (lattice81 ! 11)))
         (rint (pt_x (lattice81 ! 21)) - rint (pt_x (lattice81 ! 11)))
         (rint (pt_y (lattice81 ! 21)) - rint (pt_y (lattice81 ! 11)))"
    by blast
  then have c2: "rs ! 10 = Rect 201 101 100 100" by (simp add: p11 p21 r)
  from origin o0 have c3: "rect_x (rs ! 0) = 1 \<and> rect_y (rs ! 0) = 1" by (simp add: p0 r)
  from l b o0 o1 run len c1 c2 c3 show ?thesis by blast
qed

section \<open>Properties of getIntersections\<close>

lemma distMacro_le_iff:
  "distMacro a b \<le> d \<longleftrightarrow>
     0 \<le> d \<and> (pt_x a - pt_x b) * (pt_x a - pt_x b) + (pt_y a - pt_y b) * (pt_y a - pt_y b) \<le> d * d"
proof -
  let ?s = "(pt_x a - pt_x b) * (pt_x a - pt_x b) + (pt_y a - pt_y b) * (pt_y a - pt_y b)"
  have nn: "0 \<le> ?s" by simp
  show ?thesis
  proof (cases "0 \<le> d")
    case True
    then have "sqrt ?s \<le> d \<longleftrightarrow> ?s \<le> d\<^sup>2"
      using nn by (metis real_sqrt_le_iff real_sqrt_abs abs_of_nonneg)
    then show ?thesis using True by (simp add: distMacro_def power2_eq_square)
  next
    case False
    then have "\<not> sqrt ?s \<le> d" using real_sqrt_ge_zero [OF nn] by linarith
    then show ?thesis using False by (simp add: distMacro_def)
  qed
qed

lemma arePointsNearby_code:
  "arePointsNearby point (p # points) distance =
     (if 0 \<le> distance \<and> (pt_x point - pt_x p) * (pt_x point - pt_x p)
           + (pt_y point - pt_y p) * (pt_y point - pt_y p) \<le> distance * distance
      then True else arePointsNearby point points distance)"
  by (simp add: distMacro_le_iff)

lemma distMacro_sym: "distMacro a b = distMacro b a"
  by (simp add: distMacro_def power2_commute [of "pt_x a" "pt_x b", unfolded power2_eq_square]
      power2_commute [of "pt_y a" "pt_y b", unfolded power2_eq_square])

lemma distMacro_self: "distMacro a a = 0"
  by (simp add: distMacro_def)

lemma arePointsNearby_iff: "arePointsNearby p ps d \<longleftrightarrow> (\<exists>q\<in>set ps. distMacro p q \<le> d)"
  by (induction ps) (auto simp: Let_def)

lemma separated_snoc:
  assumes "separated acc" and "\<not> arePointsNearby c acc 30"
  shows "separated (acc @ [c])"
proof -
  from assms(2) have far: "\<And>q. q \<in> set acc \<Longrightarrow> 30 < distMacro c q"
    by (force simp: arePointsNearby_iff)
  have "c \<notin> set acc"
  proof
    assume "c \<in> set acc"
    from far [OF this] show False by (simp add: distMacro_self)
  qed
  with assms(1) have d: "distinct (acc @ [c])" by (simp add: separated_def)
  have "30 < distMacro p q" if pq: "p \<in> set (acc @ [c])" "q \<in> set (acc @ [c])" "p \<noteq> q" for p q
  proof (cases "p = c")
    case True
    with pq have "q \<in> set acc" by auto
    from far [OF this] True show ?thesis by simp
  next
    case False
    with pq have p: "p \<in> set acc" by auto
    show ?thesis
    proof (cases "q = c")
      case True
      from far [OF p] True show ?thesis by (simp add: distMacro_sym [of p c])
    next
      case False
      with pq have "q \<in> set acc" by auto
      with assms(1) p pq(3) show ?thesis by (simp add: separated_def)
    qed
  qed
  with d show ?thesis by (simp add: separated_def)
qed

lemma getIntersections_body_cases:
  "getIntersections_body dst lines imageSize i j acc = acc
   \<or> (\<exists>c. getIntersections_body dst lines imageSize i j acc = acc @ [c]
          \<and> \<not> arePointsNearby c acc 30)"
  by (auto simp: getIntersections_body_def Let_def split: prod.splits)

lemma getIntersections_body_separated:
  "separated acc \<Longrightarrow> separated (getIntersections_body dst lines imageSize i j acc)"
  using getIntersections_body_cases [of dst lines imageSize i j acc]
  by (auto intro: separated_snoc)

lemma getIntersections_inner_separated:
  "separated acc \<Longrightarrow> separated (getIntersections_inner dst lines imageSize i js acc)"
  by (induction js arbitrary: acc) (simp_all add: getIntersections_body_separated)

lemma getIntersections_outer_separated:
  "separated acc \<Longrightarrow> separated (getIntersections_outer dst lines imageSize is acc)"
  by (induction "is" arbitrary: acc) (simp_all add: getIntersections_inner_separated)

lemma getIntersections_inner_extends:
  "\<exists>ys. getIntersections_inner dst lines imageSize i js acc = acc @ ys"
proof (induction js arbitrary: acc)
  case Nil
  then show ?case by simp
next
  case (Cons j js)
  from getIntersections_body_cases [of dst lines imageSize i j acc]
  obtain zs where "getIntersections_body dst lines imageSize i j acc = acc @ zs" by auto
  moreover from Cons.IH [of "acc @ zs"]
  obtain ys where "getIntersections_inner dst lines imageSize i js (acc @ zs) = (acc @ zs) @ ys" ..
  ultimately show ?case by simp
qed

lemma getIntersections_outer_extends:
  "\<exists>ys. getIntersections_outer dst lines imageSize is acc = acc @ ys"
proof (induction "is" arbitrary: acc)
  case Nil
  then show ?case by simp
next
  case (Cons i "is")
  from getIntersections_inner_extends [of dst lines imageSize i _ acc]
  obtain zs where
    "getIntersections_inner dst lines imageSize i [i + 1..<length lines] acc = acc @ zs" ..
  moreover from Cons.IH [of "acc @ zs"]
  obtain ys where "getIntersections_outer dst lines imageSize is (acc @ zs) = (acc @ zs) @ ys" ..
  ultimately show ?case by simp
qed

lemma separated_mset: "mset xs = mset ys \<Longrightarrow> separated xs \<Longrightarrow> separated ys"
  using mset_eq_setD [of xs ys] mset_eq_imp_distinct_iff [of xs ys]
  by (simp add: separated_def)

lemma separated_nth:
  "separated ps \<Longrightarrow> i < length ps \<Longrightarrow> j < length ps \<Longrightarrow> i \<noteq> j \<Longrightarrow> 30 < distMacro (ps ! i) (ps ! j)"
  by (simp add: separated_def nth_eq_iff_index_eq)

lemma mset_insert_by: "mset (insert_by lt x xs) = add_mset x (mset xs)"
  by (induction xs) simp_all

lemma mset_insertion_sort: "mset (insertion_sort lt xs) = mset xs"
  by (induction xs) (simp_all add: mset_insert_by)

text \<open>
  C4: started on an empty accumulator, getIntersections returns no two points (at distinct
  positions) whose distance is less than 30, for every sort that permutes its input; a
  candidate within 30 of an accepted point leaves the accumulator as it was, and the
  accumulation only ever appends, so an accepted point is never changed or dropped.
\<close>

theorem getIntersections_keeps_points_apart:
  assumes "\<And>xs. mset (std_sort comparePoints xs) = mset xs"
  shows "(\<forall>i < length (getIntersections std_sort dst lines imageSize []).
          \<forall>j < length (getIntersections std_sort dst lines imageSize []). i \<noteq> j \<longrightarrow>
            \<not> distMacro (getIntersections std_sort dst lines imageSize [] ! i)
                        (getIntersections std_sort dst lines imageSize [] ! j) < 30)
     \<and> (arePointsNearby (snd (checkIntersection (lines ! a) (lines ! b) imageSize (Point2f 0 0))) acc 30
          \<longrightarrow> getIntersections_body dst lines imageSize a b acc = acc)
     \<and> (\<exists>ys. getIntersections_outer dst lines imageSize [0..<length lines] acc = acc @ ys)"
proof (intro conjI allI impI)
  let ?ps = "getIntersections std_sort dst lines imageSize []"
  have "separated []" by (simp add: separated_def)
  then have "separated (getIntersections_outer dst lines imageSize [0..<length lines] [])"
    by (rule getIntersections_outer_separated)
  then have sep: "separated ?ps"
    unfolding getIntersections_def by (rule separated_mset [OF assms [symmetric]])
  fix i j
  assume "i < length ?ps" "j < length ?ps" "i \<noteq> j"
  from separated_nth [OF sep this] show "\<not> distMacro (?ps ! i) (?ps ! j) < 30" by simp
next
  assume "arePointsNearby (snd (checkIntersection (lines ! a) (lines ! b) imageSize (Point2f 0 0))) acc 30"
  then show "getIntersections_body dst lines imageSize a b acc = acc"
    by (auto simp: getIntersections_body_def Let_def split: prod.splits)
next
  show "\<exists>ys. getIntersections_outer dst lines imageSize [0..<length lines] acc = acc @ ys"
    by (rule getIntersections_outer_extends)
qed

theorem getIntersections_keeps_points_apart_witness:
  "getIntersections insertion_sort blank board_lines (Size 500 500) []
     = [Point2f 100 100, Point2f 200 100, Point2f 100 200, Point2f 200 200]
   \<and> \<not> distMacro (Point2f 100 100) (Point2f 200 100) < 30
   \<and> checkIntersection (board_lines ! 2) (board_lines ! 3) (Size 500 500) (Point2f 0 0)
       = (True, Point2f 100 110)
   \<and> arePointsNearby (Point2f 100 110) [Point2f 100 100] 30
   \<and> getIntersections_body blank board_lines (Size 500 500) 2 3 [Point2f 100 100]
       = [Point2f 100 100]"
proof -
  let ?ps = "[Point2f 100 100, Point2f 200 100, Point2f 100 200, Point2f 200 200]"
  have acc: "getIntersections_outer blank board_lines (Size 500 500) [0..<length board_lines] []
      = ?ps"
    by (simp add: board_lines_def blank_def getIntersections_body_def upt_conv_Cons
        pt_sub_def pt_add_def pt_scale_def arePointsNearby_code del: arePointsNearby.simps(2))
  have srt: "insertion_sort comparePoints ?ps = ?ps"
    by code_simp
  have run: "getIntersections insertion_sort blank board_lines (Size 500 500) [] = ?ps"
    by (simp only: getIntersections_def acc srt)
  have cand: "checkIntersection (board_lines ! 2) (board_lines ! 3) (Size 500 500) (Point2f 0 0)
       = (True, Point2f 100 110)"
    by (simp add: board_lines_def pt_sub_def pt_add_def pt_scale_def)
  have near: "arePointsNearby (Point2f 100 110) [Point2f 100 100] 30"
    by (simp add: arePointsNearby_code del: arePointsNearby.simps(2))
  note t = getIntersections_keeps_points_apart
    [of insertion_sort blank board_lines "Size 500 500" 2 3 "[Point2f 100 100]",
     OF mset_insertion_sort, unfolded run cand]
  from t have apart: "\<forall>i<length ?ps. \<forall>j<length ?ps. i \<noteq> j \<longrightarrow> \<not> distMacro (?ps ! i) (?ps ! j) < 30"
    by blast
  have "(0::nat) < length ?ps" "(1::nat) < length ?ps" "(0::nat) \<noteq> 1" by simp_all
  from apart [rule_format, OF this]
  have far: "\<not> distMacro (Point2f 100 100) (Point2f 200 100) < 30" by simp
  from t near have keep: "getIntersections_body blank board_lines (Size 500 500) 2 3 [Point2f 100 100]
       = [Point2f 100 100]"
    by simp
  from run far cand near keep show ?thesis by blast
qed

section \<open>Properties of getFenFromLabels\<close>

text \<open>
  C2: 64 empty labels should give the board field \<open>8/8/8/8/8/8/8/8\<close>, every run of empty
  squares being written before a piece, before a row separator and at the end of the final row.
  The code writes a pending count only inside the loop, so the run that ends the last row is
  never written: the empty board gives \<open>8/8/8/8/8/8/8/\<close>, and the lone king on e1 gives a
  last row \<open>4K\<close> where \<open>4K3\<close> is due.
\<close>

theorem getFenFromLabels_drops_last_run:
  "getFenFromLabels (replicate 64 ''ee'') [''w''] = Inr ''8/8/8/8/8/8/8/ w - - 0 0''
   \<and> getFenFromLabels lone_king [''w''] = Inr ''8/8/8/8/8/8/8/4K w - - 0 0''"
  by code_simp

lemma getFenFromLabels_result_nonempty:
  "length squareLabels = 64 \<Longrightarrow> getFenFromLabels squareLabels cin \<noteq> Inr ''''"
  by (auto simp: getFenFromLabels_def split: sum.splits prod.splits)

text \<open>
  C9: for every label vector whose size is not 64, getFenFromLabels returns at once with the
  empty string: no board content is encoded and no input is read. The empty string reports the
  failure to the caller, since no call with 64 labels returns it.
\<close>

theorem getFenFromLabels_wrong_size:
  "(length squareLabels \<noteq> 64 \<longrightarrow> getFenFromLabels squareLabels cin = Inr '''')
   \<and> (length labels64 = 64 \<longrightarrow> getFenFromLabels labels64 cin' \<noteq> Inr '''')"
  using getFenFromLabels_result_nonempty [of labels64 cin']
  by (simp add: getFenFromLabels_def)

theorem getFenFromLabels_wrong_size_witness:
  "length (replicate 63 ''ee'') \<noteq> 64
   \<and> getFenFromLabels (replicate 63 ''ee'') [''w''] = Inr ''''
   \<and> length (replicate 64 ''wp'') = 64
   \<and> getFenFromLabels (replicate 64 ''wp'') [''b''] \<noteq> Inr ''''"
  using getFenFromLabels_wrong_size [of "replicate 63 ''ee''" "[''w'']" "replicate 64 ''wp''" "[''b'']"]
  by simp

section \<open>Properties of the piece detection\<close>

text \<open>
  C10: the decision of isEmptySpace does not depend on the isDarkSquare argument: on every
  image and region the call with true and the call with false return the same result (the same
  boolean, or the same exception for a region outside the image).
\<close>

theorem isEmptySpace_ignores_isDarkSquare:
  "isEmptySpace cv img currentRect True = isEmptySpace cv img currentRect False"
  by (simp add: isEmptySpace_def)

theorem isEmptySpace_ignores_isDarkSquare_witness:
  "isEmptySpace (edgy_ops 0) photo (Rect 0 0 10 10) True = Inr False
   \<and> isEmptySpace (edgy_ops 0) photo (Rect 0 0 10 10) False = Inr False
   \<and> isEmptySpace (flat_ops 0) photo (Rect 70 70 10 10) True = Inr True
   \<and> isEmptySpace (flat_ops 0) photo (Rect 70 70 10 10) False = Inr True"
proof -
  have a: "isEmptySpace (edgy_ops 0) photo (Rect 0 0 10 10) True = Inr False" by code_simp
  have b: "isEmptySpace (flat_ops 0) photo (Rect 70 70 10 10) True = Inr True" by code_simp
  from a b show ?thesis
    using isEmptySpace_ignores_isDarkSquare [of "edgy_ops 0" photo "Rect 0 0 10 10"]
      isEmptySpace_ignores_isDarkSquare [of "flat_ops 0" photo "Rect 70 70 10 10"]
    by simp
qed

text \<open>
  C8: an arg-max class index outside the label table should be reported as UnknownClassIndex.
  The code checks nothing: for every index below 0 or from 12 on it evaluates
  \<open>PIECE_VALUES[classId]\<close> outside the array.
\<close>

theorem getNNPieceLabel_index_unchecked:
  assumes "mat_roi img currentRect = Inr square"
    and "net_argmax cv square < 0 \<or> 12 \<le> net_argmax cv square"
  shows "getNNPieceLabel cv img currentRect = Inl (UndefinedRead (net_argmax cv square))"
  using assms by (auto simp: getNNPieceLabel_def array_at_def PIECE_VALUES_def)

theorem getNNPieceLabel_index_unchecked_witness:
  "mat_roi photo (Rect 0 0 10 10) = Inr (Mat 10 10 (\<lambda>r c. mat_px photo (0 + r) (0 + c)))
   \<and> net_argmax (flat_ops 12) (Mat 10 10 (\<lambda>r c. mat_px photo (0 + r) (0 + c))) = 12
   \<and> getNNPieceLabel (flat_ops 12) photo (Rect 0 0 10 10) = Inl (UndefinedRead 12)"
proof -
  have roi: "mat_roi photo (Rect 0 0 10 10) = Inr (Mat 10 10 (\<lambda>r c. mat_px photo (0 + r) (0 + c)))"
    by (simp add: mat_roi_def photo_def)
  have idx: "net_argmax (flat_ops 12) (Mat 10 10 (\<lambda>r c. mat_px photo (0 + r) (0 + c))) = 12"
    by (simp add: flat_ops_def)
  from getNNPieceLabel_index_unchecked [of photo "Rect 0 0 10 10" _ "flat_ops 12", OF roi] idx roi
  show ?thesis by simp
qed

lemma getNNPieceLabel_known_class:
  assumes "mat_roi img currentRect = Inr square"
    and "0 \<le> net_argmax cv square" and "net_argmax cv square < 12"
  shows "getNNPieceLabel cv img currentRect = Inr (PIECE_VALUES ! nat (net_argmax cv square))"
  using assms by (simp add: getNNPieceLabel_def array_at_def PIECE_VALUES_def)

lemma chid_loop_append:
  "computeHistogramIntersectionDifference_loop h1 h2 (xs @ ys) acc =
     (case computeHistogramIntersectionDifference_loop h1 h2 xs acc of
        Inl e \<Rightarrow> Inl e
      | Inr acc' \<Rightarrow> computeHistogramIntersectionDifference_loop h1 h2 ys acc')"
  by (induction xs arbitrary: acc) (simp_all split: sum.splits)

lemma chid_loop_inside:
  "(\<And>i. i \<in> set is \<Longrightarrow> i < length h1 \<and> i < length h2) \<Longrightarrow>
   computeHistogramIntersectionDifference_loop h1 h2 is acc =
     Inr (acc + sum_list (map (\<lambda>i. min (h1 ! i) (h2 ! i)) is))"
  by (induction "is" arbitrary: acc) (simp_all add: vec_at_def)

text \<open>
  C7: two feature vectors of different lengths should be reported as
  InvalidFeatureVectorLength. The code goes on after the size test: when \<open>h1\<close> is the shorter
  it returns an ordinary number, one minus the intersection over the indices of \<open>h1\<close>, and
  when \<open>h2\<close> is the shorter it reads \<open>h2\<close> at its own length, outside the vector.
\<close>

theorem computeHistogramIntersectionDifference_mismatch:
  "(length h1 < length h2 \<longrightarrow>
      computeHistogramIntersectionDifference h1 h2 =
        Inr (1 - sum_list (map (\<lambda>i. min (h1 ! i) (h2 ! i)) [0..<length h1])))
   \<and> (length k2 < length k1 \<longrightarrow>
      computeHistogramIntersectionDifference k1 k2 = Inl (UndefinedRead (int (length k2))))"
proof (intro conjI impI)
  assume "length h1 < length h2"
  then have "computeHistogramIntersectionDifference_loop h1 h2 [0..<length h1] 0 =
     Inr (0 + sum_list (map (\<lambda>i. min (h1 ! i) (h2 ! i)) [0..<length h1]))"
    by (intro chid_loop_inside) auto
  then show "computeHistogramIntersectionDifference h1 h2 =
        Inr (1 - sum_list (map (\<lambda>i. min (h1 ! i) (h2 ! i)) [0..<length h1]))"
    by (simp add: computeHistogramIntersectionDifference_def)
next
  assume short: "length k2 < length k1"
  let ?m = "length k2"
  have split: "[0..<length k1] = [0..<?m] @ ?m # [Suc ?m..<length k1]"
    using short by (metis less_imp_le_nat upt_add_eq_append upt_conv_Cons le0 add_0 le_add_diff_inverse)
  have pre: "computeHistogramIntersectionDifference_loop k1 k2 [0..<?m] 0 =
     Inr (0 + sum_list (map (\<lambda>i. min (k1 ! i) (k2 ! i)) [0..<?m]))"
    using short by (intro chid_loop_inside) auto
  have "computeHistogramIntersectionDifference_loop k1 k2 [0..<length k1] 0
          = Inl (UndefinedRead (int ?m))"
    unfolding split chid_loop_append pre using short by (simp add: vec_at_def)
  then show "computeHistogramIntersectionDifference k1 k2 = Inl (UndefinedRead (int (length k2)))"
    by (simp add: computeHistogramIntersectionDifference_def)
qed

theorem computeHistogramIntersectionDifference_mismatch_witness:
  "length [1::real] < length [1, 0::real]
   \<and> computeHistogramIntersectionDifference [1] [1, 0] = Inr 0
   \<and> length [1/2::real] < length [1/2, 1/2::real]
   \<and> computeHistogramIntersectionDifference [1/2, 1/2] [1/2] = Inl (UndefinedRead 1)"
  using computeHistogramIntersectionDifference_mismatch [of "[1]" "[1, 0]" "[1/2]" "[1/2, 1/2]"]
  by simp

lemma upt_shift: "[k..<k + length (r # rs)] = k # [Suc k..<Suc k + length rs]"
  by (simp add: upt_rec [of k] del: upt_Suc)

lemma checkerboard_Suc:
  "checkerboard (Suc k) = (if k mod 8 \<noteq> 7 then \<not> checkerboard k else checkerboard k)"
  by (simp add: checkerboard_def div_Suc mod_Suc)

lemma getPieceLabels_loop_flags:
  "getPieceLabels_loop cv dst temp rects (k, checkerboard k, ls, ps) = Inr (labels, passed)
   \<Longrightarrow> passed = ps @ map checkerboard [k..<k + length rects]"
proof (induction rects arbitrary: k ls ps)
  case Nil
  then show ?case by simp
next
  case (Cons r rects)
  from Cons.prems obtain lbl where
    "getPieceLabels_loop cv dst temp rects
       (Suc k, (if k mod 8 \<noteq> 7 then \<not> checkerboard k else checkerboard k),
        ls @ [lbl], ps @ [checkerboard k])
     = Inr (labels, passed)"
    by (auto split: sum.splits)
  then have "getPieceLabels_loop cv dst temp rects
       (Suc k, checkerboard (Suc k), ls @ [lbl], ps @ [checkerboard k]) = Inr (labels, passed)"
    by (simp only: checkerboard_Suc)
  from Cons.IH [OF this] show ?case
    by (simp only: upt_shift list.map append_assoc append_Cons append_Nil)
qed

lemma getPieceLabels_flags:
  assumes "getPieceLabels cv dst rects ls = Inr (labels, passed)"
  shows "passed = map checkerboard [0..<length rects]"
proof -
  have "checkerboard 0 = False" by (simp add: checkerboard_def)
  with assms getPieceLabels_loop_flags [of cv dst dst rects 0 ls "[]" labels passed]
  show ?thesis by (simp add: getPieceLabels_def)
qed

lemma getPieceLabelsNN_loop_flags:
  "getPieceLabelsNN_loop cv dst temp rects (odd k, ls, ps) = Inr (labels, passed)
   \<Longrightarrow> passed = ps @ map odd [k..<k + length rects]"
proof (induction rects arbitrary: k ls ps)
  case Nil
  then show ?case by simp
next
  case (Cons r rects)
  from Cons.prems obtain lbl where
    "getPieceLabelsNN_loop cv dst temp rects (odd (Suc k), ls @ [lbl], ps @ [odd k])
     = Inr (labels, passed)"
    by (auto split: sum.splits)
  from Cons.IH [OF this] show ?case
    by (simp only: upt_shift list.map append_assoc append_Cons append_Nil)
qed

lemma getPieceLabelsNN_flags:
  assumes "getPieceLabelsNN cv dst rects ls = Inr (labels, passed)"
  shows "passed = map odd [0..<length rects]"
  using getPieceLabelsNN_loop_flags [of cv dst dst rects 0 ls "[]" labels passed] assms
  by (simp add: getPieceLabelsNN_def)

text \<open>
  C6: both labelling loops should pass the same isDarkSquare flag for the same square. They do
  not: getPieceLabels passes the checkerboard colour, getPieceLabelsNN the parity of the index.
  On the first square of the second row (index 8) the first passes true and the second false.
\<close>

theorem piece_label_loops_disagree_on_flag:
  "length squares64 = 64
   \<and> flag_passed (getPieceLabels (flat_ops 0) photo squares64 []) 8 = Some True
   \<and> flag_passed (getPieceLabelsNN (flat_ops 0) photo squares64 []) 8 = Some False"
  by code_simp

end
